theory Spec2Isabelle
  imports Main "HOL-Library.Multiset"
begin

text \<open>
  A model of the request handlers of the study-group server, \<^verbatim>\<open>src/server.js\<close>
  (its first, transactional text, which \<^verbatim>\<open>src/unnamed/part_003\<close> repeats): each
  handler is a function from the request, the behaviour of the storage client and
  the stored tables to the response sent and the tables afterwards. A handler runs
  after \<^verbatim>\<open>authMiddleware\<close>, on the claims of the verified token; requests are
  handled one after the other.
\<close>

section \<open>Request values\<close>

text \<open>
  The handlers of \<^verbatim>\<open>src/server.js\<close> read optional fields of a JSON body, of the
  query string or of the route. A textual field is a \<open>string option\<close>: \<open>None\<close> is an
  absent (or null) field, \<open>Some []\<close> the empty string. A numeric field is an
  \<open>int option\<close>. The JavaScript tests \<^verbatim>\<open>!x\<close>, \<^verbatim>\<open>x ? a : b\<close> and \<^verbatim>\<open>x || d\<close> treat the
  absent field, the empty string and the number 0 alike, as falsy.
\<close>

definition truthy :: "string option \<Rightarrow> bool" where
  "truthy v = (case v of None \<Rightarrow> False | Some t \<Rightarrow> t \<noteq> [])"

text \<open>\<^verbatim>\<open>v || d\<close> for a textual field and a default text.\<close>

definition or_text :: "string option \<Rightarrow> string \<Rightarrow> string" where
  "or_text v d = (case v of None \<Rightarrow> d | Some t \<Rightarrow> if t = [] then d else t)"


text \<open>\<^verbatim>\<open>v || d\<close> for a numeric field and a default number.\<close>

definition or_number :: "int option \<Rightarrow> int \<Rightarrow> int" where
  "or_number v d = (case v of None \<Rightarrow> d | Some n \<Rightarrow> if n = 0 then d else n)"

text \<open>
  A password is not sent to the storage but handed to \<^verbatim>\<open>bcrypt\<close>, which takes
  texts only, so the field keeps the kind of JSON value the body held: absent or
  null, a text, a number, a boolean, or an object or array.
\<close>

datatype js_value = JAbsent | JText string | JNumber int | JBool bool | JObject

definition truthy_value :: "js_value \<Rightarrow> bool" where
  "truthy_value v =
     (case v of JAbsent \<Rightarrow> False | JText t \<Rightarrow> t \<noteq> [] | JNumber n \<Rightarrow> n \<noteq> 0
      | JBool b \<Rightarrow> b | JObject \<Rightarrow> True)"

subsection \<open>\<^verbatim>\<open>parseInt\<close> with one argument\<close>

text \<open>
  \<^verbatim>\<open>parseInt(req.params.id)\<close>: leading white space is skipped, one sign is read, a
  prefix \<^verbatim>\<open>0x\<close> or \<^verbatim>\<open>0X\<close> selects radix 16 (radix 10 otherwise), and the longest
  run of digits of that radix is the value; whatever follows is ignored. With no
  digit at that place the result is \<^verbatim>\<open>NaN\<close>, here \<open>None\<close>, so that
  \<^verbatim>\<open>isNaN(groupId)\<close> is \<open>parseInt id_param = None\<close>. Characters are the 8-bit characters
  of HOL; the value is the exact integer (JavaScript rounds above \<open>2^53\<close>).
\<close>

definition is_space :: "char \<Rightarrow> bool" where
  "is_space c = ((of_char c :: nat) \<in> set [9, 10, 11, 12, 13, 32, 160])"

definition digit_value :: "char \<Rightarrow> nat option" where
  "digit_value c =
     (let n = (of_char c :: nat)
      in if 48 \<le> n \<and> n \<le> 57 then Some (n - 48)
         else if 97 \<le> n \<and> n \<le> 122 then Some (n - 87)
         else if 65 \<le> n \<and> n \<le> 90 then Some (n - 55)
         else None)"

definition is_digit :: "nat \<Rightarrow> char \<Rightarrow> bool" where
  "is_digit R c = (case digit_value c of None \<Rightarrow> False | Some d \<Rightarrow> d < R)"

definition radix_value :: "nat \<Rightarrow> string \<Rightarrow> nat" where
  "radix_value R Z =
     foldl (\<lambda>acc c. acc * R + (case digit_value c of None \<Rightarrow> 0 | Some d \<Rightarrow> d)) 0 Z"

definition parseInt :: "string \<Rightarrow> int option" where
  "parseInt inputString =
     (let S = dropWhile is_space inputString;
          negative = (case S of [] \<Rightarrow> False | c # _ \<Rightarrow> c = CHR ''-'');
          S1 = (case S of [] \<Rightarrow> []
                | c # rest \<Rightarrow> if c = CHR ''+'' \<or> c = CHR ''-'' then rest else S);
          hex = (take 2 S1 = ''0x'' \<or> take 2 S1 = ''0X'');
          R = (if hex then 16 else 10);
          S2 = (if hex then drop 2 S1 else S1);
          Z = takeWhile (is_digit R) S2
      in if Z = [] then None
         else Some ((if negative then - 1 else 1) * int (radix_value R Z)))"

section \<open>The stored tables\<close>

text \<open>
  The tables the queries name, each a list of rows in insertion order. The schema
  itself is not part of the sources; the columns are the ones the statements read
  and write. \<^verbatim>\<open>profiles\<close> is keyed by \<^verbatim>\<open>user_id\<close>, as the clause
  \<^verbatim>\<open>ON CONFLICT (user_id)\<close> requires. The counters are the sequences behind the
  \<^verbatim>\<open>id\<close> columns that \<^verbatim>\<open>RETURNING id\<close> reads.
\<close>

record user_row =
  u_id :: int
  u_email :: string
  u_password_hash :: string
  u_display_name :: string

record profile_row =
  p_bio :: "string option"
  p_location :: "string option"
  p_availability :: "string option"

record subject_row =
  s_id :: int
  s_name :: string

record user_subject_row =
  us_user_id :: int
  us_subject_id :: int
  us_level :: string

record group_row =
  g_id :: int
  g_title :: "string option"
  g_subject_id :: "int option"
  g_description :: string
  g_owner_id :: int
  g_level :: string
  g_max_members :: int
  g_created_at :: int

record member_row =
  m_group_id :: int
  m_user_id :: int
  m_role :: string

record message_row =
  msg_id :: int
  msg_group_id :: int
  msg_user_id :: int
  msg_message :: string
  msg_sent_at :: int

record db =
  users :: "user_row list"
  profiles :: "int \<rightharpoonup> profile_row"
  subjects :: "subject_row list"
  user_subjects :: "user_subject_row list"
  groups :: "group_row list"
  group_members :: "member_row list"
  group_messages :: "message_row list"
  next_user_id :: int
  next_group_id :: int
  next_message_id :: int

definition empty_db :: db where
  "empty_db = \<lparr> users = [], profiles = Map.empty, subjects = [], user_subjects = [],
     groups = [], group_members = [], group_messages = [],
     next_user_id = 1, next_group_id = 1, next_message_id = 1 \<rparr>"

section \<open>Responses and storage failures\<close>

text \<open>The claims of a verified token, \<^verbatim>\<open>req.user\<close> after \<^verbatim>\<open>authMiddleware\<close>.\<close>

record claims =
  c_id :: int
  c_email :: string
  c_display_name :: string

record match_group_row =
  mg_group :: group_row
  mg_subject_name :: string
  mg_owner_name :: string
  mg_member_count :: nat

record match_user_row =
  mu_id :: int
  mu_display_name :: string
  mu_bio :: "string option"
  mu_level :: string
  mu_subject_name :: string

datatype json =
    JError string
  | JOk
  | JOkGroup int
  | JAuth string claims
  | JGroups "match_group_row list"
  | JUsers "match_user_row list"

text \<open>
  \<open>NoResponse\<close>: the handler's promise was rejected outside every \<^verbatim>\<open>catch\<close>, and
  nothing was sent.
\<close>

datatype response = Response nat json | NoResponse

text \<open>
  Every call of the storage client may throw. A \<open>faults\<close> predicate says which
  call sites do, in one run of a handler. A statement that throws has no effect.
\<close>

datatype site =
    RegisterSelect | RegisterInsert
  | LoginSelect
  | ProfileUpsert
  | GroupInsert | OwnerInsert
  | Connect | Begin | SelectGroup | CountMembers | SelectExists | InsertMember | Commit
  | RollbackNotFound | RollbackFull | RollbackMember | RollbackCatch
  | MatchGroups | MatchUsers
  | MessageInsert

type_synonym faults = "site \<Rightarrow> bool"

definition no_faults :: faults where
  "no_faults = (\<lambda>_. False)"

datatype 'a attempt = Threw | Returned 'a

section \<open>Joining a group\<close>

definition select_group :: "db \<Rightarrow> int \<Rightarrow> group_row list" where
  "select_group s groupId = filter (\<lambda>g. g_id g = groupId) (groups s)"

definition members_of :: "db \<Rightarrow> int \<Rightarrow> member_row list" where
  "members_of s groupId = filter (\<lambda>m. m_group_id m = groupId) (group_members s)"

definition membership :: "db \<Rightarrow> int \<Rightarrow> int \<Rightarrow> member_row list" where
  "membership s groupId userId =
     filter (\<lambda>m. m_group_id m = groupId \<and> m_user_id m = userId) (group_members s)"

text \<open>
  Modelled from the spec: the column \<^verbatim>\<open>role\<close> of \<^verbatim>\<open>group_members\<close>, which the
  join's \<^verbatim>\<open>INSERT\<close> leaves to its default, holds \<open>member\<close> for a joined user.
\<close>

definition joined_row :: "int \<Rightarrow> int \<Rightarrow> member_row" where
  "joined_row groupId userId =
     \<lparr> m_group_id = groupId, m_user_id = userId, m_role = ''member'' \<rparr>"

text \<open>\<^verbatim>\<open>INSERT INTO group_members\<close>, of one row.\<close>

definition insert_member :: "member_row \<Rightarrow> db \<Rightarrow> db" where
  "insert_member m s = s \<lparr> group_members := group_members s @ [m] \<rparr>"

text \<open>
  The \<^verbatim>\<open>try\<close> block of \<^verbatim>\<open>POST /api/groups/:id/join\<close>. The statements between
  \<^verbatim>\<open>BEGIN\<close> and \<^verbatim>\<open>COMMIT\<close> work on \<open>tx\<close>, the transaction's view of the
  tables; \<^verbatim>\<open>COMMIT\<close> makes it the stored state, \<^verbatim>\<open>ROLLBACK\<close> gives the state
  before \<^verbatim>\<open>BEGIN\<close> back. The result is the response sent and the stored state.
\<close>

definition join_try :: "faults \<Rightarrow> claims \<Rightarrow> int \<Rightarrow> db \<Rightarrow> (response \<times> db) attempt" where
  "join_try F user groupId s =
     (if F Begin then Threw
      else let tx = s in
      if F SelectGroup then Threw
      else case select_group tx groupId of
        [] \<Rightarrow>
          if F RollbackNotFound then Threw
          else Returned (Response 404 (JError ''Group not found''), s)
      | grp # _ \<Rightarrow>
          if F CountMembers then Threw
          else let memberCount = int (length (members_of tx groupId)) in
          if memberCount \<ge> g_max_members grp then
            (if F RollbackFull then Threw
             else Returned (Response 400 (JError ''Group is full''), s))
          else if F SelectExists then Threw
          else if length (membership tx groupId (c_id user)) > 0 then
            (if F RollbackMember then Threw
             else Returned (Response 400 (JError ''Already a member''), s))
          else if F InsertMember then Threw
          else let tx' = insert_member (joined_row groupId (c_id user)) tx in
          if F Commit then Threw
          else Returned (Response 200 JOk, tx'))"

text \<open>
  The handler: the guard on the route parameter, \<^verbatim>\<open>pool.connect()\<close> outside the
  \<^verbatim>\<open>try\<close>, and the \<^verbatim>\<open>catch\<close> block with its own \<^verbatim>\<open>ROLLBACK\<close>.
\<close>

definition joinGroup :: "faults \<Rightarrow> claims \<Rightarrow> string \<Rightarrow> db \<Rightarrow> response \<times> db" where
  "joinGroup F user id_param s =
     (case parseInt id_param of
        None \<Rightarrow> (Response 400 (JError ''Invalid group ID''), s)
      | Some groupId \<Rightarrow>
          if F Connect then (NoResponse, s)
          else case join_try F user groupId s of
            Returned out \<Rightarrow> out
          | Threw \<Rightarrow>
              if F RollbackCatch then (NoResponse, s)
              else (Response 500 (JError ''Failed to join group''), s))"

section \<open>Creating a group\<close>

record group_body =
  gb_title :: "string option"
  gb_subject_id :: "int option"
  gb_description :: "string option"
  gb_level :: "string option"
  gb_max_members :: "int option"

text \<open>
  \<^verbatim>\<open>POST /api/groups\<close>: two statements sent through the pool one after the other,
  outside any transaction, so the first is stored as soon as it returns. \<open>now\<close> is
  the clock the column \<^verbatim>\<open>created_at\<close> takes its default from.
\<close>

definition created_group :: "claims \<Rightarrow> group_body \<Rightarrow> int \<Rightarrow> db \<Rightarrow> group_row" where
  "created_group user body now s =
     \<lparr> g_id = next_group_id s, g_title = gb_title body,
       g_subject_id = gb_subject_id body,
       g_description = or_text (gb_description body) [],
       g_owner_id = c_id user,
       g_level = or_text (gb_level body) ''mixed'',
       g_max_members = or_number (gb_max_members body) 10,
       g_created_at = now \<rparr>"

definition owner_row :: "int \<Rightarrow> int \<Rightarrow> member_row" where
  "owner_row groupId userId =
     \<lparr> m_group_id = groupId, m_user_id = userId, m_role = ''owner'' \<rparr>"

text \<open>\<^verbatim>\<open>INSERT INTO groups ... RETURNING id\<close>: the row, with the next id of the sequence.\<close>

definition insert_group :: "claims \<Rightarrow> group_body \<Rightarrow> int \<Rightarrow> db \<Rightarrow> db" where
  "insert_group user body now s =
     s \<lparr> groups := groups s @ [created_group user body now s],
         next_group_id := next_group_id s + 1 \<rparr>"

definition createGroup :: "faults \<Rightarrow> claims \<Rightarrow> group_body \<Rightarrow> int \<Rightarrow> db \<Rightarrow> response \<times> db" where
  "createGroup F user body now s =
     (if F GroupInsert then (Response 500 (JError ''Failed to create group''), s)
      else let groupId = next_group_id s;
               s1 = insert_group user body now s
      in if F OwnerInsert then (Response 500 (JError ''Failed to create group''), s1)
         else (Response 201 (JOkGroup groupId),
               insert_member (owner_row groupId (c_id user)) s1))"

section \<open>Registration and login\<close>

text \<open>
  The password hashing and the token signature are libraries; the handlers are
  modelled over any behaviour of them on texts. On a password that is not a text,
  \<^verbatim>\<open>bcrypt.hash\<close> and \<^verbatim>\<open>bcrypt.compare\<close> reject, and the \<^verbatim>\<open>await\<close> throws.
\<close>

record crypto =
  bcrypt_hash :: "string \<Rightarrow> string"
  bcrypt_compare :: "string \<Rightarrow> string \<Rightarrow> bool"
  jwt_sign :: "claims \<Rightarrow> string"

definition await_hash :: "crypto \<Rightarrow> js_value \<Rightarrow> string attempt" where
  "await_hash cr password =
     (case password of JText p \<Rightarrow> Returned (bcrypt_hash cr p) | _ \<Rightarrow> Threw)"

definition await_compare :: "crypto \<Rightarrow> js_value \<Rightarrow> string \<Rightarrow> bool attempt" where
  "await_compare cr password hash =
     (case password of JText p \<Rightarrow> Returned (bcrypt_compare cr p hash) | _ \<Rightarrow> Threw)"

definition makeToken :: "crypto \<Rightarrow> claims \<Rightarrow> string" where
  "makeToken cr user = jwt_sign cr user"

definition text_of :: "string option \<Rightarrow> string" where
  "text_of v = (case v of None \<Rightarrow> [] | Some t \<Rightarrow> t)"

record register_body =
  rb_email :: "string option"
  rb_password :: js_value
  rb_display_name :: "string option"

definition users_with_email :: "db \<Rightarrow> string \<Rightarrow> user_row list" where
  "users_with_email s email = filter (\<lambda>u. u_email u = email) (users s)"

definition register :: "faults \<Rightarrow> crypto \<Rightarrow> register_body \<Rightarrow> db \<Rightarrow> response \<times> db" where
  "register F cr body s =
     (if \<not> truthy (rb_email body) \<or> \<not> truthy_value (rb_password body)
          \<or> \<not> truthy (rb_display_name body)
      then (Response 400 (JError ''Missing required fields''), s)
      else let email = text_of (rb_email body);
               password = rb_password body;
               display_name = text_of (rb_display_name body) in
      if F RegisterSelect then (Response 500 (JError ''Internal server error''), s)
      else if length (users_with_email s email) > 0
      then (Response 409 (JError ''Email already in use''), s)
      else case await_hash cr password of
        Threw \<Rightarrow> (Response 500 (JError ''Internal server error''), s)
      | Returned hash \<Rightarrow>
          if F RegisterInsert then (Response 500 (JError ''Internal server error''), s)
          else let user = \<lparr> c_id = next_user_id s, c_email = email,
                             c_display_name = display_name \<rparr>;
                   token = makeToken cr user
          in (Response 201 (JAuth token user),
              s \<lparr> users := users s @
                     [\<lparr> u_id = next_user_id s, u_email = email, u_password_hash = hash,
                        u_display_name = display_name \<rparr>],
                   next_user_id := next_user_id s + 1 \<rparr>))"

record login_body =
  lb_email :: "string option"
  lb_password :: js_value

text \<open>
  \<^verbatim>\<open>POST /api/login\<close>. The comparison is awaited inside the \<^verbatim>\<open>try\<close>, and only once a
  row was found; when it throws, the \<^verbatim>\<open>catch\<close> block answers 500.
\<close>

definition login :: "faults \<Rightarrow> crypto \<Rightarrow> login_body \<Rightarrow> db \<Rightarrow> response \<times> db" where
  "login F cr body s =
     (if \<not> truthy (lb_email body) \<or> \<not> truthy_value (lb_password body)
      then (Response 400 (JError ''Email and password are required''), s)
      else let email = text_of (lb_email body);
               password = lb_password body in
      if F LoginSelect then (Response 500 (JError ''Internal server error''), s)
      else case users_with_email s email of
        [] \<Rightarrow> (Response 401 (JError ''Invalid credentials''), s)
      | user # _ \<Rightarrow>
          case await_compare cr password (u_password_hash user) of
            Threw \<Rightarrow> (Response 500 (JError ''Internal server error''), s)
          | Returned isMatch \<Rightarrow>
              if \<not> isMatch
              then (Response 401 (JError ''Invalid credentials''), s)
              else let view = \<lparr> c_id = u_id user, c_email = u_email user,
                                 c_display_name = u_display_name user \<rparr>
                   in (Response 200 (JAuth (makeToken cr view) view), s))"

section \<open>Profiles\<close>




section \<open>Matching\<close>

record match_query =
  mq_subject_id :: "int option"
  mq_level :: "string option"
  mq_type :: "string option"

text \<open>
  The group branch of \<^verbatim>\<open>GET /api/match\<close>, clause by clause:
  \<^verbatim>\<open>FROM groups g JOIN subjects s ON s.id = g.subject_id JOIN users u ON u.id = g.owner_id\<close>,
  the \<^verbatim>\<open>WHERE\<close> clause with its optional second conjunct, the selected columns with
  the counting subquery, \<^verbatim>\<open>ORDER BY g.created_at DESC\<close> and \<^verbatim>\<open>LIMIT 50\<close>. A
  parameter that is absent is sent as \<^verbatim>\<open>NULL\<close>, which equals no \<^verbatim>\<open>subject_id\<close>.

  The query fixes no order among rows of equal \<^verbatim>\<open>created_at\<close>, and the other
  branch fixes no order at all: the order in which the storage yields the rows is a
  parameter, \<open>row_order\<close>, any rearrangement of the rows it is given. Sorting what
  it yields by the key alone then gives every order the query allows.
\<close>

record row_order =
  group_order :: "(group_row \<times> subject_row \<times> user_row) list
                    \<Rightarrow> (group_row \<times> subject_row \<times> user_row) list"
  user_order :: "(user_subject_row \<times> user_row \<times> profile_row option \<times> subject_row) list
                    \<Rightarrow> (user_subject_row \<times> user_row \<times> profile_row option \<times> subject_row) list"

definition reorders :: "('a list \<Rightarrow> 'a list) \<Rightarrow> bool" where
  "reorders f = (\<forall>xs. mset (f xs) = mset xs)"

definition table_order :: row_order where
  "table_order = \<lparr> group_order = (\<lambda>xs. xs), user_order = (\<lambda>xs. xs) \<rparr>"

definition reverse_order :: row_order where
  "reverse_order = \<lparr> group_order = rev, user_order = rev \<rparr>"

definition group_join :: "db \<Rightarrow> (group_row \<times> subject_row \<times> user_row) list" where
  "group_join s =
     concat (map (\<lambda>g.
       concat (map (\<lambda>sb.
         map (\<lambda>u. (g, sb, u)) (filter (\<lambda>u. u_id u = g_owner_id g) (users s)))
         (filter (\<lambda>sb. Some (s_id sb) = g_subject_id g) (subjects s))))
       (groups s))"

definition group_where :: "match_query \<Rightarrow> group_row \<Rightarrow> bool" where
  "group_where q g =
     (mq_subject_id q \<noteq> None \<and> g_subject_id g = mq_subject_id q \<and>
      (if truthy (mq_level q)
       then g_level g = text_of (mq_level q) \<or> g_level g = ''mixed''
       else True))"

definition group_columns :: "db \<Rightarrow> group_row \<times> subject_row \<times> user_row \<Rightarrow> match_group_row" where
  "group_columns s = (\<lambda>(g, sb, u).
     \<lparr> mg_group = g, mg_subject_name = s_name sb, mg_owner_name = u_display_name u,
        mg_member_count = length (members_of s (g_id g)) \<rparr>)"

definition match_groups :: "row_order \<Rightarrow> db \<Rightarrow> match_query \<Rightarrow> match_group_row list" where
  "match_groups ord s q =
     take 50 (sort_key (\<lambda>r. - g_created_at (mg_group r))
       (map (group_columns s)
         (group_order ord (filter (\<lambda>(g, sb, u). group_where q g) (group_join s)))))"

text \<open>
  The other branch:
  \<^verbatim>\<open>FROM user_subjects us JOIN users u ... LEFT JOIN profiles p ... JOIN subjects s ...\<close>,
  with an exact test on the level and the same limit.
\<close>

definition user_join :: "db \<Rightarrow> (user_subject_row \<times> user_row \<times> profile_row option \<times> subject_row) list" where
  "user_join s =
     concat (map (\<lambda>us.
       concat (map (\<lambda>u.
         map (\<lambda>sb. (us, u, profiles s (u_id u), sb))
           (filter (\<lambda>sb. s_id sb = us_subject_id us) (subjects s)))
         (filter (\<lambda>u. u_id u = us_user_id us) (users s))))
       (user_subjects s))"

definition user_where :: "match_query \<Rightarrow> user_subject_row \<Rightarrow> bool" where
  "user_where q us =
     (mq_subject_id q = Some (us_subject_id us) \<and>
      (if truthy (mq_level q) then us_level us = text_of (mq_level q) else True))"

definition match_users :: "row_order \<Rightarrow> db \<Rightarrow> match_query \<Rightarrow> match_user_row list" where
  "match_users ord s q =
     take 50 (map (\<lambda>(us, u, p, sb).
         \<lparr> mu_id = u_id u, mu_display_name = u_display_name u,
            mu_bio = (case p of None \<Rightarrow> None | Some row \<Rightarrow> p_bio row),
            mu_level = us_level us, mu_subject_name = s_name sb \<rparr>)
       (user_order ord (filter (\<lambda>(us, u, p, sb). user_where q us) (user_join s))))"

definition findMatches :: "row_order \<Rightarrow> faults \<Rightarrow> claims \<Rightarrow> match_query \<Rightarrow> db \<Rightarrow> response \<times> db" where
  "findMatches ord F user q s =
     (if mq_type q = Some ''group'' then
        (if F MatchGroups then (Response 500 (JError ''Failed to fetch matches''), s)
         else (Response 200 (JGroups (match_groups ord s q)), s))
      else
        (if F MatchUsers then (Response 500 (JError ''Failed to fetch matches''), s)
         else (Response 200 (JUsers (match_users ord s q)), s)))"

section \<open>Messages\<close>

record message_body =
  mb_message :: "string option"

text \<open>
  \<^verbatim>\<open>POST /api/groups/:id/messages\<close>. The route parameter goes through
  \<^verbatim>\<open>parseInt\<close> with no test of the result. The column \<^verbatim>\<open>group_id\<close> holds
  integers, so the statement is refused (it throws) when it is given \<^verbatim>\<open>NaN\<close>;
  \<^verbatim>\<open>id\<close> and \<^verbatim>\<open>sent_at\<close> take their defaults, a sequence and the clock \<open>now\<close>.
\<close>

definition posted_row :: "claims \<Rightarrow> int \<Rightarrow> string \<Rightarrow> int \<Rightarrow> db \<Rightarrow> message_row" where
  "posted_row user groupId message now s =
     \<lparr> msg_id = next_message_id s, msg_group_id = groupId, msg_user_id = c_id user,
       msg_message = message, msg_sent_at = now \<rparr>"

definition postMessage :: "faults \<Rightarrow> claims \<Rightarrow> string \<Rightarrow> message_body \<Rightarrow> int \<Rightarrow> db \<Rightarrow> response \<times> db" where
  "postMessage F user id_param body now s =
     (let groupId = parseInt id_param in
      if \<not> truthy (mb_message body) then (Response 400 (JError ''Empty message''), s)
      else case (if F MessageInsert then None else groupId) of
        None \<Rightarrow> (Response 500 (JError ''Failed to post message''), s)
      | Some gid \<Rightarrow>
          (Response 200 JOk,
           s \<lparr> group_messages := group_messages s @
                  [posted_row user gid (text_of (mb_message body)) now s],
                next_message_id := next_message_id s + 1 \<rparr>))"

section \<open>The capacity invariant and runs of requests\<close>

definition capacity_inv :: "db \<Rightarrow> bool" where
  "capacity_inv s =
     (\<forall>g \<in> set (groups s). int (length (members_of s (g_id g))) \<le> g_max_members g)"

text \<open>
  What the keys and the sequence of \<^verbatim>\<open>groups.id\<close> give: group ids are distinct,
  and no row mentions a group id that the sequence has not handed out yet.
\<close>

definition store_wf :: "db \<Rightarrow> bool" where
  "store_wf s =
     (distinct (map g_id (groups s)) \<and>
      (\<forall>g \<in> set (groups s). g_id g < next_group_id s) \<and>
      (\<forall>m \<in> set (group_members s). m_group_id m < next_group_id s))"

datatype request =
    CreateGroup faults claims group_body int
  | JoinGroup faults claims string

fun handle :: "request \<Rightarrow> db \<Rightarrow> db" where
  "handle (CreateGroup F user body now) s = snd (createGroup F user body now s)"
| "handle (JoinGroup F user id_param) s = snd (joinGroup F user id_param s)"

definition run :: "request list \<Rightarrow> db \<Rightarrow> db" where
  "run rs s = foldl (\<lambda>st r. handle r st) s rs"

fun positive_capacity :: "request \<Rightarrow> bool" where
  "positive_capacity (CreateGroup F user body now) = (1 \<le> or_number (gb_max_members body) 10)"
| "positive_capacity (JoinGroup F user id_param) = True"

text \<open>
  The group the join's first \<^verbatim>\<open>SELECT\<close> reads: \<^verbatim>\<open>rows[0]\<close>, when there is one.
\<close>

definition find_group :: "db \<Rightarrow> int \<Rightarrow> group_row option" where
  "find_group s groupId = (case select_group s groupId of [] \<Rightarrow> None | g # _ \<Rightarrow> Some g)"

definition is_member :: "db \<Rightarrow> int \<Rightarrow> int \<Rightarrow> bool" where
  "is_member s groupId userId = (membership s groupId userId \<noteq> [])"

definition member_count :: "db \<Rightarrow> int \<Rightarrow> int" where
  "member_count s groupId = int (length (members_of s groupId))"

section \<open>Matching, as the specification words it\<close>

text \<open>
  The groups asked for: those of the subject, and, when a level is given (a
  non-empty text), of that level or of level \<open>mixed\<close>.
\<close>

definition wanted_group :: "int \<Rightarrow> string option \<Rightarrow> group_row \<Rightarrow> bool" where
  "wanted_group subject level g =
     (g_subject_id g = Some subject \<and>
      (case level of
         None \<Rightarrow> True
       | Some l \<Rightarrow> l = [] \<or> g_level g = l \<or> g_level g = ''mixed''))"

definition newest_first :: "group_row list \<Rightarrow> bool" where
  "newest_first gs = sorted_wrt (\<lambda>a b. g_created_at a \<ge> g_created_at b) gs"

text \<open>
  The groups the query can list: a group whose subject row and owner row are both
  stored. The handler that creates a group stores \<^verbatim>\<open>subject_id\<close> and the token's
  user id as they come.
\<close>

definition has_rows :: "db \<Rightarrow> group_row \<Rightarrow> bool" where
  "has_rows s g =
     (g_owner_id g \<in> set (map u_id (users s)) \<and>
      (case g_subject_id g of None \<Rightarrow> False
       | Some sid \<Rightarrow> sid \<in> set (map s_id (subjects s))))"

definition listed_group :: "db \<Rightarrow> int \<Rightarrow> string option \<Rightarrow> group_row \<Rightarrow> bool" where
  "listed_group s subject level g = (wanted_group subject level g \<and> has_rows s g)"

section \<open>Example data\<close>

definition ann :: claims where
  "ann = \<lparr> c_id = 7, c_email = ''ann@example.org'', c_display_name = ''Ann'' \<rparr>"

definition bob :: claims where
  "bob = \<lparr> c_id = 8, c_email = ''bob@example.org'', c_display_name = ''Bob'' \<rparr>"

definition ann_row :: user_row where
  "ann_row = \<lparr> u_id = 7, u_email = ''ann@example.org'', u_password_hash = ''hash:secret'',
     u_display_name = ''Ann'' \<rparr>"

definition toy_crypto :: crypto where
  "toy_crypto = \<lparr> bcrypt_hash = (\<lambda>p. ''hash:'' @ p),
     bcrypt_compare = (\<lambda>p h. h = ''hash:'' @ p),
     jwt_sign = (\<lambda>c. ''token:'' @ c_email c) \<rparr>"

definition users_db :: db where
  "users_db = empty_db \<lparr> users := [ann_row], next_user_id := 8 \<rparr>"

definition study_body :: "int option \<Rightarrow> group_body" where
  "study_body m = \<lparr> gb_title = Some ''Algebra'', gb_subject_id = Some 3,
     gb_description = None, gb_level = None, gb_max_members = m \<rparr>"

text \<open>One group, of capacity \<open>m\<close>, with its owner as the only member.\<close>

definition algebra :: "int \<Rightarrow> group_row" where
  "algebra m = \<lparr> g_id = 1, g_title = Some ''Algebra'', g_subject_id = Some 3,
     g_description = [], g_owner_id = 7, g_level = ''mixed'', g_max_members = m,
     g_created_at = 0 \<rparr>"

definition algebra_db :: "int \<Rightarrow> db" where
  "algebra_db m = empty_db \<lparr> groups := [algebra m], group_members := [owner_row 1 7],
     next_group_id := 2 \<rparr>"

text \<open>Three groups on subject 3 and one on subject 4, created at times 1 to 4.\<close>

definition level_group :: "int \<Rightarrow> int \<Rightarrow> string \<Rightarrow> group_row" where
  "level_group n subject level = \<lparr> g_id = n, g_title = Some ''Group'',
     g_subject_id = Some subject, g_description = [], g_owner_id = 7, g_level = level,
     g_max_members = 10, g_created_at = n \<rparr>"

definition match_db :: db where
  "match_db = empty_db \<lparr> users := [ann_row],
     subjects := [\<lparr> s_id = 3, s_name = ''Algebra'' \<rparr>, \<lparr> s_id = 4, s_name = ''Logic'' \<rparr>],
     groups := [level_group 1 3 ''advanced'', level_group 2 3 ''beginner'',
                level_group 3 3 ''mixed'', level_group 4 4 ''advanced''],
     group_members := [owner_row 1 7, owner_row 2 7, owner_row 3 7, joined_row 3 8,
                       owner_row 4 7],
     next_user_id := 8, next_group_id := 5 \<rparr>"

text \<open>
  A store with one user and one subject, and the body of a group on a subject that
  is not stored.
\<close>

definition campus_db :: db where
  "campus_db = users_db \<lparr> subjects := [\<lparr> s_id = 3, s_name = ''Algebra'' \<rparr>] \<rparr>"

definition logic_body :: group_body where
  "logic_body = \<lparr> gb_title = Some ''Logic'', gb_subject_id = Some 4,
     gb_description = None, gb_level = None, gb_max_members = None \<rparr>"

section \<open>Results\<close>

lemmas example_defs = ann_def bob_def ann_row_def toy_crypto_def users_db_def study_body_def
  algebra_def algebra_db_def level_group_def match_db_def empty_db_def owner_row_def
  joined_row_def created_group_def posted_row_def no_faults_def insert_member_def
  insert_group_def campus_db_def logic_body_def

lemmas query_defs = select_group_def members_of_def membership_def find_group_def
  is_member_def member_count_def users_with_email_def

lemma parseInt_1: "parseInt ''1'' = Some 1"
  by (simp add: parseInt_def is_space_def is_digit_def digit_value_def radix_value_def)

lemma parseInt_5: "parseInt ''5'' = Some 5"
  by (simp add: parseInt_def is_space_def is_digit_def digit_value_def radix_value_def)

lemma parseInt_trailing: "parseInt ''12abc'' = Some 12"
  by (simp add: parseInt_def is_space_def is_digit_def digit_value_def radix_value_def)

subsection \<open>The outcomes of a join\<close>

text \<open>
  The \<^verbatim>\<open>try\<close> block throws, or answers with a rejection and the state it started
  from, or answers 200 with exactly one row added, and then only for an existing
  group below its capacity and a user who was not a member.
\<close>

lemma join_try_cases:
  "join_try F user gid s = Threw \<or>
   (\<exists>r. join_try F user gid s = Returned (r, s) \<and> r \<noteq> Response 200 JOk) \<or>
   (join_try F user gid s = Returned (Response 200 JOk,
      s \<lparr> group_members := group_members s @ [joined_row gid (c_id user)] \<rparr>) \<and>
    (\<exists>g. find_group s gid = Some g \<and> member_count s gid < g_max_members g) \<and>
    \<not> is_member s gid (c_id user))"
  by (simp add: join_try_def insert_member_def find_group_def member_count_def is_member_def
        Let_def split: list.split)

lemma joinGroup_cases:
  "(\<exists>r. joinGroup F user id_param s = (r, s) \<and> r \<noteq> Response 200 JOk) \<or>
   (\<exists>gid. parseInt id_param = Some gid \<and>
      joinGroup F user id_param s = (Response 200 JOk,
        s \<lparr> group_members := group_members s @ [joined_row gid (c_id user)] \<rparr>) \<and>
      (\<exists>g. find_group s gid = Some g \<and> member_count s gid < g_max_members g) \<and>
      \<not> is_member s gid (c_id user))"
proof (cases "parseInt id_param")
  case None
  then show ?thesis by (simp add: joinGroup_def)
next
  case (Some gid)
  from join_try_cases [of F user gid s] Some show ?thesis
    by (auto simp: joinGroup_def)
qed

lemma find_group_unique:
  assumes "distinct (map g_id (groups s))" and "find_group s gid = Some g"
    and "g' \<in> set (groups s)" and "g_id g' = gid"
  shows "g' = g"
proof -
  from assms(2) have "g \<in> set (select_group s gid)"
    by (auto simp: find_group_def split: list.splits)
  then have "g \<in> set (groups s)" and "g_id g = gid"
    by (auto simp: select_group_def)
  moreover from assms(1) have "inj_on g_id (set (groups s))"
    by (simp add: distinct_map)
  ultimately show ?thesis using assms(3,4) by (auto dest: inj_onD)
qed

lemma members_of_append:
  "members_of (s \<lparr> group_members := group_members s @ [m] \<rparr>) gid =
     members_of s gid @ (if m_group_id m = gid then [m] else [])"
  by (simp add: members_of_def)

subsection \<open>The capacity invariant\<close>

lemma join_keeps_capacity:
  assumes wf: "store_wf s" and inv: "capacity_inv s"
  shows "capacity_inv (snd (joinGroup F user id_param s))"
proof -
  from joinGroup_cases [of F user id_param s] show ?thesis
  proof (elim disjE exE conjE)
    fix r assume "joinGroup F user id_param s = (r, s)"
    with inv show ?thesis by simp
  next
    fix gid g
    assume eq: "joinGroup F user id_param s = (Response 200 JOk,
        s \<lparr> group_members := group_members s @ [joined_row gid (c_id user)] \<rparr>)"
      and g: "find_group s gid = Some g" and lt: "member_count s gid < g_max_members g"
    let ?s' = "s \<lparr> group_members := group_members s @ [joined_row gid (c_id user)] \<rparr>"
    have "capacity_inv ?s'"
      unfolding capacity_inv_def
    proof
      fix g' assume "g' \<in> set (groups ?s')"
      then have mem: "g' \<in> set (groups s)" by simp
      show "int (length (members_of ?s' (g_id g'))) \<le> g_max_members g'"
      proof (cases "g_id g' = gid")
        case True
        with wf g mem have "g' = g"
          by (auto simp: store_wf_def intro: find_group_unique)
        with True lt show ?thesis
          by (simp add: members_of_append joined_row_def member_count_def)
      next
        case False
        with inv mem show ?thesis
          by (simp add: members_of_append joined_row_def capacity_inv_def)
      qed
    qed
    with eq show ?thesis by simp
  qed
qed

lemma join_keeps_wf:
  assumes wf: "store_wf s"
  shows "store_wf (snd (joinGroup F user id_param s))"
proof -
  from joinGroup_cases [of F user id_param s] show ?thesis
  proof (elim disjE exE conjE)
    fix r assume "joinGroup F user id_param s = (r, s)"
    with wf show ?thesis by simp
  next
    fix gid g
    assume eq: "joinGroup F user id_param s = (Response 200 JOk,
        s \<lparr> group_members := group_members s @ [joined_row gid (c_id user)] \<rparr>)"
      and g: "find_group s gid = Some g"
    from g have "g \<in> set (select_group s gid)"
      by (auto simp: find_group_def split: list.splits)
    then have "g \<in> set (groups s)" and "g_id g = gid"
      by (auto simp: select_group_def)
    with wf have "gid < next_group_id s" by (auto simp: store_wf_def)
    with wf eq show ?thesis
      by (auto simp: store_wf_def joined_row_def)
  qed
qed

text \<open>The three states \<^verbatim>\<open>POST /api/groups\<close> can leave behind.\<close>

lemma createGroup_cases:
  "snd (createGroup F user body now s) = s \<or>
   snd (createGroup F user body now s) =
     s \<lparr> groups := groups s @ [created_group user body now s],
         next_group_id := next_group_id s + 1 \<rparr> \<or>
   snd (createGroup F user body now s) =
     s \<lparr> groups := groups s @ [created_group user body now s],
         next_group_id := next_group_id s + 1,
         group_members := group_members s @ [owner_row (next_group_id s) (c_id user)] \<rparr>"
  by (simp add: createGroup_def insert_group_def insert_member_def Let_def)

lemma fresh_group_empty:
  "store_wf s \<Longrightarrow> members_of s (next_group_id s) = []"
  by (auto simp: store_wf_def members_of_def filter_empty_conv)

lemma create_keeps_wf:
  assumes wf: "store_wf s"
  shows "store_wf (snd (createGroup F user body now s))"
  using createGroup_cases [of F user body now s] wf
  by (elim disjE) (auto simp: store_wf_def created_group_def owner_row_def)

lemma create_keeps_capacity:
  assumes wf: "store_wf s" and inv: "capacity_inv s"
    and pos: "1 \<le> or_number (gb_max_members body) 10"
  shows "capacity_inv (snd (createGroup F user body now s))"
proof -
  let ?g = "created_group user body now s"
  let ?s1 = "s \<lparr> groups := groups s @ [?g], next_group_id := next_group_id s + 1 \<rparr>"
  let ?s2 = "s \<lparr> groups := groups s @ [?g], next_group_id := next_group_id s + 1,
    group_members := group_members s @ [owner_row (next_group_id s) (c_id user)] \<rparr>"
  have old: "g_id g \<noteq> next_group_id s" if "g \<in> set (groups s)" for g
    using wf that by (auto simp: store_wf_def)
  have new: "g_id ?g = next_group_id s" "1 \<le> g_max_members ?g"
    using pos by (simp_all add: created_group_def)
  have one: "capacity_inv ?s1"
    unfolding capacity_inv_def
  proof
    fix g assume "g \<in> set (groups ?s1)"
    then consider "g \<in> set (groups s)" | "g = ?g" by auto
    then show "int (length (members_of ?s1 (g_id g))) \<le> g_max_members g"
    proof cases
      case 1
      with inv show ?thesis by (simp add: capacity_inv_def members_of_def)
    next
      case 2
      with new fresh_group_empty [OF wf] show ?thesis by (simp add: members_of_def)
    qed
  qed
  have two: "capacity_inv ?s2"
    unfolding capacity_inv_def
  proof
    fix g assume "g \<in> set (groups ?s2)"
    then consider "g \<in> set (groups s)" | "g = ?g" by auto
    then show "int (length (members_of ?s2 (g_id g))) \<le> g_max_members g"
    proof cases
      case 1
      with inv old [OF 1] show ?thesis
        by (simp add: capacity_inv_def members_of_def owner_row_def)
    next
      case 2
      with new fresh_group_empty [OF wf] show ?thesis
        by (simp add: members_of_def owner_row_def)
    qed
  qed
  from createGroup_cases [of F user body now s] inv one two show ?thesis
    by (elim disjE) simp_all
qed

lemma handle_keeps:
  assumes "store_wf s" and "capacity_inv s" and "positive_capacity r"
  shows "store_wf (handle r s) \<and> capacity_inv (handle r s)"
  using assms
  by (cases r)
    (simp_all add: create_keeps_wf create_keeps_capacity join_keeps_wf join_keeps_capacity)

lemma run_keeps:
  "store_wf s \<Longrightarrow> capacity_inv s \<Longrightarrow> \<forall>r \<in> set rs. positive_capacity r \<Longrightarrow>
     store_wf (run rs s) \<and> capacity_inv (run rs s)"
proof (induction rs arbitrary: s)
  case Nil
  then show ?case by (simp add: run_def)
next
  case (Cons r rs)
  from Cons.prems have "store_wf (handle r s) \<and> capacity_inv (handle r s)"
    by (simp add: handle_keeps)
  with Cons.IH [of "handle r s"] Cons.prems show ?case
    by (simp add: run_def)
qed

text \<open>
  C1, as the code has it. From a well-formed state in which every group holds at
  most \<open>max_members\<close> members, after every prefix of a run of \<^verbatim>\<open>createGroup\<close> and
  join requests, each with any storage failures, every group still holds at most
  \<open>max_members\<close> members, provided every group is created with a capacity of at
  least 1 (the field absent, 0, or a positive number). A join changes the state
  only by adding one row to an existing group whose count was strictly below
  \<open>max_members\<close>.
\<close>

theorem capacity_preserved:
  "(store_wf s \<and> capacity_inv s \<and> (\<forall>r \<in> set rs. positive_capacity r) \<longrightarrow>
      (\<forall>n. capacity_inv (run (take n rs) s))) \<and>
   (snd (joinGroup F user id_param s) \<noteq> s \<longrightarrow>
      (\<exists>gid g. parseInt id_param = Some gid \<and> find_group s gid = Some g \<and>
         member_count s gid < g_max_members g \<and>
         snd (joinGroup F user id_param s) =
           s \<lparr> group_members := group_members s @ [joined_row gid (c_id user)] \<rparr>))"
proof (intro conjI impI allI)
  fix n
  assume a: "store_wf s \<and> capacity_inv s \<and> (\<forall>r \<in> set rs. positive_capacity r)"
  then have "\<forall>r \<in> set (take n rs). positive_capacity r"
    by (auto dest: in_set_takeD)
  with a run_keeps [of s "take n rs"] show "capacity_inv (run (take n rs) s)"
    by simp
next
  assume "snd (joinGroup F user id_param s) \<noteq> s"
  with joinGroup_cases [of F user id_param s]
  show "\<exists>gid g. parseInt id_param = Some gid \<and> find_group s gid = Some g \<and>
         member_count s gid < g_max_members g \<and>
         snd (joinGroup F user id_param s) =
           s \<lparr> group_members := group_members s @ [joined_row gid (c_id user)] \<rparr>"
    by auto
qed

theorem capacity_preserved_witness:
  "store_wf (algebra_db 3) \<and> capacity_inv (algebra_db 3) \<and>
   positive_capacity (CreateGroup no_faults ann (study_body (Some 2)) 5) \<and>
   positive_capacity (JoinGroup no_faults bob ''2'') \<and>
   capacity_inv (run [CreateGroup no_faults ann (study_body (Some 2)) 5,
                      JoinGroup no_faults bob ''2''] (algebra_db 3)) \<and>
   snd (joinGroup no_faults bob ''1'' (algebra_db 3)) \<noteq> algebra_db 3 \<and>
   member_count (algebra_db 3) 1 < 3"
proof -
  have wf: "store_wf (algebra_db 3)"
    by (simp add: store_wf_def example_defs)
  have inv: "capacity_inv (algebra_db 3)"
    by (simp add: capacity_inv_def example_defs query_defs)
  have pos: "positive_capacity (CreateGroup no_faults ann (study_body (Some 2)) 5)"
      "positive_capacity (JoinGroup no_faults bob ''2'')"
    by (simp_all add: or_number_def study_body_def)
  have changed: "snd (joinGroup no_faults bob ''1'' (algebra_db 3)) \<noteq> algebra_db 3"
    by (simp add: joinGroup_def join_try_def parseInt_1 example_defs query_defs)
  have cnt: "member_count (algebra_db 3) 1 < 3"
    by (simp add: example_defs query_defs)
  from capacity_preserved [of "algebra_db 3"
      "[CreateGroup no_faults ann (study_body (Some 2)) 5, JoinGroup no_faults bob ''2'']"
      no_faults bob "''1''"] wf inv pos
  have "\<forall>n. capacity_inv (run (take n [CreateGroup no_faults ann (study_body (Some 2)) 5,
                      JoinGroup no_faults bob ''2'']) (algebra_db 3))"
    by simp
  then have "capacity_inv (run (take 2 [CreateGroup no_faults ann (study_body (Some 2)) 5,
                      JoinGroup no_faults bob ''2'']) (algebra_db 3))"
    by (rule spec)
  with wf inv pos changed cnt show ?thesis by simp
qed

text \<open>
  C1 as stated fails: \<^verbatim>\<open>max_members || 10\<close> lets a negative capacity through, and
  the group created with capacity \<open>-1\<close> in the empty state holds its owner, one
  member more than \<open>-1\<close>.
\<close>

theorem capacity_negative_counterexample:
  "store_wf empty_db \<and> capacity_inv empty_db \<and>
   \<not> capacity_inv (run [CreateGroup no_faults ann (study_body (Some (- 1))) 0] empty_db)"
  by (simp add: store_wf_def capacity_inv_def run_def createGroup_def or_number_def
        or_text_def example_defs query_defs)

subsection \<open>Joining twice\<close>

lemma join_member_rejected:
  assumes "parseInt id_param = Some gid" and "find_group s gid = Some g"
    and "is_member s gid (c_id user)"
  shows "joinGroup no_faults user id_param s =
     (Response 400 (JError (if g_max_members g \<le> member_count s gid
                            then ''Group is full'' else ''Already a member'')), s)"
  using assms
  by (auto simp: joinGroup_def join_try_def no_faults_def insert_member_def query_defs
        split: list.splits)

lemma join_success_member:
  assumes "parseInt id_param = Some gid"
    and "joinGroup F user id_param s0 = (Response 200 JOk, s)"
  shows "(\<exists>g. find_group s gid = Some g) \<and> is_member s gid (c_id user)"
  using joinGroup_cases [of F user id_param s0] assms
  by (auto simp: query_defs joined_row_def)

text \<open>
  C2, as the code has it. The capacity is tested before the membership. When the
  user already holds a row for an existing group, a join that meets no storage
  failure is answered 400 and leaves the state as it was, so that the same holds
  for every later identical join: with \<open>Already a member\<close> while the group is
  below its capacity, with \<open>Group is full\<close> once it has reached it. After a
  successful join the user holds a row for the existing group, so the above
  applies to the second join.
\<close>

theorem join_by_member_rejected:
  assumes "parseInt id_param = Some gid"
  shows "(find_group s gid = Some g \<and> is_member s gid (c_id user) \<longrightarrow>
            joinGroup no_faults user id_param s =
              (Response 400 (JError (if g_max_members g \<le> member_count s gid
                                     then ''Group is full'' else ''Already a member'')), s)) \<and>
         (joinGroup F user id_param s0 = (Response 200 JOk, s) \<longrightarrow>
            (\<exists>g. find_group s gid = Some g) \<and> is_member s gid (c_id user))"
  using assms by (simp add: join_member_rejected join_success_member)

theorem join_by_member_rejected_witness:
  "parseInt ''1'' = Some 1 \<and>
   joinGroup no_faults bob ''1'' (algebra_db 3) =
     (Response 200 JOk, algebra_db 3 \<lparr> group_members := [owner_row 1 7, joined_row 1 8] \<rparr>) \<and>
   find_group (algebra_db 3 \<lparr> group_members := [owner_row 1 7, joined_row 1 8] \<rparr>) 1
     = Some (algebra 3) \<and>
   is_member (algebra_db 3 \<lparr> group_members := [owner_row 1 7, joined_row 1 8] \<rparr>) 1 (c_id bob) \<and>
   joinGroup no_faults bob ''1''
       (algebra_db 3 \<lparr> group_members := [owner_row 1 7, joined_row 1 8] \<rparr>) =
     (Response 400 (JError ''Already a member''),
      algebra_db 3 \<lparr> group_members := [owner_row 1 7, joined_row 1 8] \<rparr>)"
proof -
  let ?s = "algebra_db 3 \<lparr> group_members := [owner_row 1 7, joined_row 1 8] \<rparr>"
  have first: "joinGroup no_faults bob ''1'' (algebra_db 3) = (Response 200 JOk, ?s)"
    by (simp add: joinGroup_def join_try_def parseInt_1 example_defs query_defs)
  have g: "find_group ?s 1 = Some (algebra 3)"
    by (simp add: example_defs query_defs)
  have cnt: "member_count ?s 1 = 2"
    by (simp add: example_defs query_defs)
  from join_by_member_rejected [OF parseInt_1, of ?s "algebra 3" bob no_faults "algebra_db 3"]
    first g
  have m: "is_member ?s 1 (c_id bob)"
    and second: "joinGroup no_faults bob ''1'' ?s =
      (Response 400 (JError (if g_max_members (algebra 3) \<le> member_count ?s 1
                             then ''Group is full'' else ''Already a member'')), ?s)"
    by simp_all
  from second cnt have "joinGroup no_faults bob ''1'' ?s =
      (Response 400 (JError ''Already a member''), ?s)"
    by (simp add: algebra_def)
  with parseInt_1 first g m show ?thesis by simp
qed

text \<open>
  C2 as stated fails: in a full group, the join of a user who is already a member
  is answered \<open>Group is full\<close>, not \<open>Already a member\<close>.
\<close>

theorem join_full_member_counterexample:
  "find_group (algebra_db 1) 1 = Some (algebra 1) \<and> is_member (algebra_db 1) 1 (c_id ann) \<and>
   joinGroup no_faults ann ''1'' (algebra_db 1) =
     (Response 400 (JError ''Group is full''), algebra_db 1) \<and>
   fst (joinGroup no_faults ann ''1'' (algebra_db 1)) \<noteq> Response 400 (JError ''Already a member'')"
  by (simp add: joinGroup_def join_try_def parseInt_1 example_defs query_defs)

subsection \<open>Creating a group is not atomic\<close>

text \<open>
  C3. When the second \<^verbatim>\<open>INSERT\<close> of \<^verbatim>\<open>POST /api/groups\<close> throws, the request is
  answered 500 and the group row of the first \<^verbatim>\<open>INSERT\<close> stays stored, with no
  member at all: here group 1 in the state that was empty.
\<close>

theorem createGroup_owner_insert_fails:
  "createGroup (\<lambda>q. q = OwnerInsert) ann (study_body None) 0 empty_db =
     (Response 500 (JError ''Failed to create group''),
      empty_db \<lparr> groups := [created_group ann (study_body None) 0 empty_db],
                 next_group_id := 2 \<rparr>) \<and>
   map g_id (groups (snd (createGroup (\<lambda>q. q = OwnerInsert) ann (study_body None) 0 empty_db)))
     = [1] \<and>
   members_of (snd (createGroup (\<lambda>q. q = OwnerInsert) ann (study_body None) 0 empty_db)) 1
     = []"
  by (simp add: createGroup_def example_defs query_defs)

text \<open>
  The same gap between the two statements is open to other requests. With the
  group row of a group of capacity 1 stored and its owner row not yet, a join is
  admitted (the group has no member); the owner row then makes two members.
\<close>

lemma join_between_inserts_exceeds:
  "capacity_inv (insert_group ann (study_body (Some 1)) 0 empty_db) \<and>
   joinGroup no_faults bob ''1'' (insert_group ann (study_body (Some 1)) 0 empty_db) =
     (Response 200 JOk,
      insert_member (joined_row 1 8) (insert_group ann (study_body (Some 1)) 0 empty_db)) \<and>
   \<not> capacity_inv (insert_member (owner_row 1 (c_id ann))
         (insert_member (joined_row 1 8) (insert_group ann (study_body (Some 1)) 0 empty_db)))"
  by (simp add: capacity_inv_def joinGroup_def join_try_def parseInt_1 or_number_def or_text_def
        example_defs query_defs)

subsection \<open>A join that fails changes nothing\<close>

text \<open>
  C4. Whenever a join is answered with anything but the success response (a
  rejection with 404 or 400, the 500 of the \<^verbatim>\<open>catch\<close> block after a storage
  failure, or no answer at all), the stored state is the state before the request.
\<close>

theorem join_failure_no_effect:
  "fst (joinGroup F user id_param s) \<noteq> Response 200 JOk \<Longrightarrow>
     snd (joinGroup F user id_param s) = s"
  using joinGroup_cases [of F user id_param s] by auto

theorem join_failure_no_effect_witness:
  "fst (joinGroup (\<lambda>q. q = InsertMember) bob ''1'' (algebra_db 3)) =
     Response 500 (JError ''Failed to join group'') \<and>
   fst (joinGroup (\<lambda>q. q = InsertMember) bob ''1'' (algebra_db 3)) \<noteq> Response 200 JOk \<and>
   snd (joinGroup (\<lambda>q. q = InsertMember) bob ''1'' (algebra_db 3)) = algebra_db 3"
proof -
  have r: "fst (joinGroup (\<lambda>q. q = InsertMember) bob ''1'' (algebra_db 3)) =
     Response 500 (JError ''Failed to join group'')"
    by (simp add: joinGroup_def join_try_def parseInt_1 example_defs query_defs)
  then have h: "fst (joinGroup (\<lambda>q. q = InsertMember) bob ''1'' (algebra_db 3))
      \<noteq> Response 200 JOk"
    by simp
  from r h join_failure_no_effect [OF h] show ?thesis by simp
qed

subsection \<open>Registration and login\<close>

text \<open>
  C5. Registering with an email that a stored user already has leaves the state as
  it was, whatever the other fields and the storage do; and when the three fields
  are supplied (truthy) and the lookup does not throw, the answer is 409 with
  \<open>Email already in use\<close>.
\<close>

theorem register_existing_email:
  assumes "users_with_email s e \<noteq> []"
  shows "snd (register F cr \<lparr> rb_email = Some e, rb_password = pw, rb_display_name = dn \<rparr> s) = s \<and>
         (e \<noteq> [] \<and> truthy_value pw \<and> truthy dn \<and> \<not> F RegisterSelect \<longrightarrow>
            fst (register F cr \<lparr> rb_email = Some e, rb_password = pw, rb_display_name = dn \<rparr> s)
              = Response 409 (JError ''Email already in use''))"
  using assms by (simp add: register_def truthy_def text_of_def Let_def)

theorem register_existing_email_witness:
  "users_with_email users_db ''ann@example.org'' \<noteq> [] \<and>
   ''ann@example.org'' \<noteq> [] \<and> truthy_value (JText ''pw'') \<and> truthy (Some ''Ann B'') \<and>
   \<not> no_faults RegisterSelect \<and>
   register no_faults toy_crypto \<lparr> rb_email = Some ''ann@example.org'', rb_password = JText ''pw'',
       rb_display_name = Some ''Ann B'' \<rparr> users_db
     = (Response 409 (JError ''Email already in use''), users_db)"
proof -
  have h: "users_with_email users_db ''ann@example.org'' \<noteq> []"
    by (simp add: users_with_email_def users_db_def ann_row_def empty_db_def)
  have t: "truthy_value (JText ''pw'')" "truthy (Some ''Ann B'')" "\<not> no_faults RegisterSelect"
    by (simp_all add: truthy_def truthy_value_def no_faults_def)
  from register_existing_email [OF h, of no_faults toy_crypto "JText ''pw''" "Some ''Ann B''"] t h
  show ?thesis by (simp add: prod_eq_iff)
qed

text \<open>
  With passwords that are texts, an email no stored user has and a stored user's
  email with a password the comparison rejects get the same answer: when both
  attempts pass (or both fail) the test for missing fields, under the same storage
  behaviour, and 401 with \<open>Invalid credentials\<close> when both pass it and the lookup
  does not throw.
\<close>

lemma login_text_password_same_answer:
  assumes same_check: "(truthy (lb_email b1) \<and> truthy_value (lb_password b1)) =
                       (truthy (lb_email b2) \<and> truthy_value (lb_password b2))"
    and absent: "users_with_email s1 (text_of (lb_email b1)) = []"
    and present: "users_with_email s2 (text_of (lb_email b2)) = u # others"
    and textual: "lb_password b2 = JText p2"
    and wrong: "\<not> bcrypt_compare cr p2 (u_password_hash u)"
  shows "fst (login F cr b1 s1) = fst (login F cr b2 s2) \<and>
         snd (login F cr b1 s1) = s1 \<and> snd (login F cr b2 s2) = s2 \<and>
         (truthy (lb_email b1) \<and> truthy_value (lb_password b1) \<and> \<not> F LoginSelect \<longrightarrow>
            fst (login F cr b1 s1) = Response 401 (JError ''Invalid credentials'') \<and>
            fst (login F cr b2 s2) = Response 401 (JError ''Invalid credentials''))"
  using assms by (auto simp: login_def await_compare_def Let_def)

text \<open>A login never changes the stored state.\<close>

lemma login_keeps_state: "snd (login F cr b s) = s"
  by (simp add: login_def Let_def split: list.split attempt.split)

text \<open>
  C6. The two answers differ when the password is a number: for the email of a
  stored user the comparison throws and the \<^verbatim>\<open>catch\<close> block answers 500 with
  \<open>Internal server error\<close>; for an email no stored user has, the same password is
  answered 401 with \<open>Invalid credentials\<close>.
\<close>

theorem login_number_password_reveals_email:
  "users_with_email users_db ''ann@example.org'' = [ann_row] \<and>
   users_with_email users_db ''eve@example.org'' = [] \<and>
   login no_faults toy_crypto
       \<lparr> lb_email = Some ''ann@example.org'', lb_password = JNumber 12345 \<rparr> users_db
     = (Response 500 (JError ''Internal server error''), users_db) \<and>
   login no_faults toy_crypto
       \<lparr> lb_email = Some ''eve@example.org'', lb_password = JNumber 12345 \<rparr> users_db
     = (Response 401 (JError ''Invalid credentials''), users_db)"
  by (simp add: login_def await_compare_def truthy_def truthy_value_def text_of_def
        users_with_email_def users_db_def ann_row_def empty_db_def no_faults_def)

theorem login_number_password_reveals_email_witness:
  "fst (login no_faults toy_crypto
       \<lparr> lb_email = Some ''ann@example.org'', lb_password = JNumber 12345 \<rparr> users_db) \<noteq>
   fst (login no_faults toy_crypto
       \<lparr> lb_email = Some ''eve@example.org'', lb_password = JNumber 12345 \<rparr> users_db)"
  using login_number_password_reveals_email by simp

subsection \<open>Profiles\<close>



subsection \<open>Matching groups\<close>

lemma insort_key_map:
  "map f (insort_key (\<lambda>x. k (f x)) x xs) = insort_key k (f x) (map f xs)"
  by (induction xs) simp_all

lemma sort_key_map:
  "map f (sort_key (\<lambda>x. k (f x)) xs) = sort_key k (map f xs)"
  by (induction xs) (simp_all add: insort_key_map)

lemma filter_key_single:
  "distinct (map k xs) \<Longrightarrow> v \<in> set (map k xs) \<Longrightarrow> \<exists>x. filter (\<lambda>y. k y = v) xs = [x]"
proof (induction xs)
  case Nil
  then show ?case by simp
next
  case (Cons a xs)
  show ?case
  proof (cases "k a = v")
    case True
    with Cons.prems have "\<forall>y \<in> set xs. k y \<noteq> v"
      by (auto simp: image_iff)
    then have "filter (\<lambda>y. k y = v) xs = []"
      by (simp add: filter_empty_conv)
    with True show ?thesis by simp
  next
    case False
    with Cons show ?thesis by auto
  qed
qed

lemma filter_key_none:
  "v \<notin> set (map k xs) \<Longrightarrow> filter (\<lambda>y. k y = v) xs = []"
  by (auto simp: filter_empty_conv)

lemma map_fst_concat_filter:
  "(\<And>g. g \<in> set gs \<Longrightarrow> map fst (f g) = (if P g then [g] else [])) \<Longrightarrow>
     map fst (concat (map f gs)) = filter P gs"
  by (induction gs) simp_all

text \<open>
  The groups of the joined rows are the groups whose subject row and owner row are
  stored; when ids are keys, each of them once, in table order.
\<close>

lemma set_group_join:
  "fst ` set (group_join s) = {g \<in> set (groups s). has_rows s g}"
proof (intro set_eqI iffI)
  fix g assume "g \<in> fst ` set (group_join s)"
  then obtain sb u where "(g, sb, u) \<in> set (group_join s)" by force
  then have "g \<in> set (groups s)" and "sb \<in> set (subjects s)" and "u \<in> set (users s)"
    and "Some (s_id sb) = g_subject_id g" and "u_id u = g_owner_id g"
    by (auto simp: group_join_def)
  then have "g_owner_id g \<in> set (map u_id (users s))"
    and "g_subject_id g = Some (s_id sb)" and "s_id sb \<in> set (map s_id (subjects s))"
    by force+
  then have "has_rows s g"
    by (simp add: has_rows_def)
  with \<open>g \<in> set (groups s)\<close> show "g \<in> {g \<in> set (groups s). has_rows s g}" by simp
next
  fix g assume "g \<in> {g \<in> set (groups s). has_rows s g}"
  then have g: "g \<in> set (groups s)" and h: "has_rows s g" by simp_all
  from h obtain u where u: "u \<in> set (users s)" "u_id u = g_owner_id g"
    by (auto simp: has_rows_def)
  from h obtain sb where sb: "sb \<in> set (subjects s)" "Some (s_id sb) = g_subject_id g"
    by (auto simp: has_rows_def split: option.splits)
  from g u sb have "(g, sb, u) \<in> set (group_join s)"
    by (auto simp: group_join_def)
  then show "g \<in> fst ` set (group_join s)" by force
qed

lemma group_join_keyed:
  assumes ks: "distinct (map s_id (subjects s))" and ku: "distinct (map u_id (users s))"
  shows "map fst (group_join s) = filter (has_rows s) (groups s)"
  unfolding group_join_def
proof (rule map_fst_concat_filter)
  fix g assume "g \<in> set (groups s)"
  let ?us = "filter (\<lambda>u. u_id u = g_owner_id g) (users s)"
  let ?sbs = "filter (\<lambda>sb. Some (s_id sb) = g_subject_id g) (subjects s)"
  show "map fst (concat (map (\<lambda>sb. map (\<lambda>u. (g, sb, u)) ?us) ?sbs))
        = (if has_rows s g then [g] else [])"
  proof (cases "has_rows s g")
    case True
    then have "g_owner_id g \<in> set (map u_id (users s))"
      by (simp add: has_rows_def)
    with ku obtain u where u: "?us = [u]"
      using filter_key_single [of u_id "users s" "g_owner_id g"] by blast
    from True obtain sid where sid: "g_subject_id g = Some sid"
      and "sid \<in> set (map s_id (subjects s))"
      by (auto simp: has_rows_def split: option.splits)
    with ks obtain sb where "filter (\<lambda>y. s_id y = sid) (subjects s) = [sb]"
      using filter_key_single [of s_id "subjects s" sid] by blast
    with sid u True show ?thesis by simp
  next
    case False
    then consider "g_owner_id g \<notin> set (map u_id (users s))"
      | "g_subject_id g = None"
      | sid where "g_subject_id g = Some sid" "sid \<notin> set (map s_id (subjects s))"
      by (auto simp: has_rows_def split: option.splits)
    then show ?thesis
    proof cases
      case 1
      then have "?us = []" by (rule filter_key_none)
      with False show ?thesis by simp
    next
      case 2
      with False show ?thesis by simp
    next
      case 3
      from 3(2) have "filter (\<lambda>y. s_id y = sid) (subjects s) = []"
        by (rule filter_key_none)
      with 3(1) False show ?thesis by simp
    qed
  qed
qed

lemma listed_group_where:
  "(has_rows s g \<and>
    group_where \<lparr> mq_subject_id = Some subject, mq_level = level, mq_type = ty \<rparr> g)
   = listed_group s subject level g"
  by (auto simp: listed_group_def group_where_def wanted_group_def truthy_def text_of_def
        split: option.splits)

lemma match_groups_counts:
  "r \<in> set (match_groups ord s q) \<Longrightarrow>
     mg_member_count r = length (members_of s (g_id (mg_group r)))"
  by (auto simp: match_groups_def group_columns_def dest!: in_set_takeD)

lemma newest_first_sort:
  "newest_first (sort_key (\<lambda>g. - g_created_at g) gs)"
proof -
  have "sorted (map (\<lambda>g. - g_created_at g) (sort_key (\<lambda>g. - g_created_at g) gs))"
    by (rule sorted_sort_key)
  then show ?thesis
    by (simp add: newest_first_def sorted_map)
qed

text \<open>
  C8, as the code has it. For every order in which the storage yields rows, a
  group search that meets no storage failure answers 200 with the first 50 rows of
  a list that is newest first and holds the groups of the subject, of the level
  asked for or of level \<open>mixed\<close> (of any level when none is given), whose subject
  row and owner row are stored; when the ids of subjects and users are keys, each
  such group is in the list once. Each row carries the number of membership rows of
  its group. A group whose subject row or owner row is missing is left out by the
  joins.
\<close>

theorem match_groups_result:
  assumes "reorders (group_order ord)"
  shows "\<exists>rows L.
     findMatches ord no_faults user
        \<lparr> mq_subject_id = Some subject, mq_level = level, mq_type = Some ''group'' \<rparr> s
       = (Response 200 (JGroups rows), s) \<and>
     map mg_group rows = take 50 L \<and> newest_first L \<and> length rows \<le> 50 \<and>
     set L = {g \<in> set (groups s). listed_group s subject level g} \<and>
     (distinct (map s_id (subjects s)) \<and> distinct (map u_id (users s)) \<longrightarrow>
        mset L = mset (filter (listed_group s subject level) (groups s))) \<and>
     (\<forall>r \<in> set rows. mg_member_count r = length (members_of s (g_id (mg_group r))))"
proof -
  let ?q = "\<lparr> mq_subject_id = Some subject, mq_level = level, mq_type = Some ''group'' \<rparr>"
  let ?J = "filter (\<lambda>(g, sb, u). group_where ?q g) (group_join s)"
  let ?X = "group_order ord ?J"
  let ?rows = "match_groups ord s ?q"
  let ?L = "sort_key (\<lambda>g. - g_created_at g) (map fst ?X)"
  have r: "findMatches ord no_faults user ?q s = (Response 200 (JGroups ?rows), s)"
    by (simp add: findMatches_def no_faults_def)
  have cols: "map mg_group (map (group_columns s) js) = map fst js" for js
    by (induction js) (auto simp: group_columns_def)
  have "map mg_group ?rows
      = take 50 (map mg_group (sort_key (\<lambda>r. - g_created_at (mg_group r))
          (map (group_columns s) ?X)))"
    by (simp only: match_groups_def take_map)
  also have "\<dots> = take 50 (sort_key (\<lambda>g. - g_created_at g)
          (map mg_group (map (group_columns s) ?X)))"
    by (simp only: sort_key_map [of mg_group "\<lambda>g. - g_created_at g"])
  also have "\<dots> = take 50 ?L"
    by (simp only: cols)
  finally have eq: "map mg_group ?rows = take 50 ?L" .
  have srt: "newest_first ?L"
    by (rule newest_first_sort)
  have len: "length ?rows \<le> 50"
    by (simp add: match_groups_def)
  from assms have perm: "mset ?X = mset ?J"
    by (simp add: reorders_def)
  have fstJ: "map fst ?J = filter (group_where ?q) (map fst (group_join s))"
    by (simp add: filter_map comp_def case_prod_unfold)
  from perm have sX: "set ?X = set ?J"
    by (rule mset_eq_setD)
  have sJ: "set ?J = {x \<in> set (group_join s). group_where ?q (fst x)}"
    by (auto simp: case_prod_unfold)
  have "set ?L = fst ` set ?X" by simp
  also have "\<dots> = fst ` {x \<in> set (group_join s). group_where ?q (fst x)}"
    by (simp only: sX sJ)
  also have "\<dots> = {g \<in> fst ` set (group_join s). group_where ?q g}"
    by auto
  also have "\<dots> = {g \<in> set (groups s). has_rows s g \<and> group_where ?q g}"
    by (simp only: set_group_join) simp
  also have "\<dots> = {g \<in> set (groups s). listed_group s subject level g}"
    by (simp only: listed_group_where)
  finally have setL: "set ?L = {g \<in> set (groups s). listed_group s subject level g}" .
  have msetL: "mset ?L = mset (filter (listed_group s subject level) (groups s))"
    if keys: "distinct (map s_id (subjects s)) \<and> distinct (map u_id (users s))"
  proof -
    have "mset ?L = image_mset fst (mset ?X)" by simp
    also from perm have "\<dots> = mset (map fst ?J)" by simp
    also have "map fst ?J = filter (group_where ?q) (filter (has_rows s) (groups s))"
      using keys by (simp only: fstJ group_join_keyed)
    also have "\<dots> = filter (\<lambda>g. has_rows s g \<and> group_where ?q g) (groups s)"
      by (simp only: filter_filter conj_commute)
    also have "\<dots> = filter (listed_group s subject level) (groups s)"
      by (simp only: listed_group_where)
    finally show ?thesis .
  qed
  have cnt: "\<forall>r \<in> set ?rows. mg_member_count r = length (members_of s (g_id (mg_group r)))"
    by (simp add: match_groups_counts)
  from msetL have msetL': "distinct (map s_id (subjects s)) \<and> distinct (map u_id (users s)) \<longrightarrow>
        mset ?L = mset (filter (listed_group s subject level) (groups s))"
    by (rule impI)
  from r eq srt len setL msetL' cnt show ?thesis
    by (intro exI [of _ ?rows] exI [of _ ?L] conjI)
qed

theorem match_groups_result_witness:
  "reorders (group_order reverse_order) \<and>
   distinct (map s_id (subjects match_db)) \<and> distinct (map u_id (users match_db)) \<and>
   (\<exists>rows L. findMatches reverse_order no_faults bob
        \<lparr> mq_subject_id = Some 3, mq_level = Some ''advanced'', mq_type = Some ''group'' \<rparr> match_db
       = (Response 200 (JGroups rows), match_db) \<and>
      map mg_group rows = take 50 L \<and> newest_first L \<and>
      mset L = mset [level_group 1 3 ''advanced'', level_group 3 3 ''mixed''] \<and>
      map mg_group rows = [level_group 3 3 ''mixed'', level_group 1 3 ''advanced''] \<and>
      map mg_member_count rows = [2, 1])"
proof -
  let ?q = "\<lparr> mq_subject_id = Some 3, mq_level = Some ''advanced'', mq_type = Some ''group'' \<rparr>"
  have ro: "reorders (group_order reverse_order)"
    by (simp add: reorders_def reverse_order_def)
  have ks: "distinct (map s_id (subjects match_db))"
    and ku: "distinct (map u_id (users match_db))"
    by (simp_all add: example_defs)
  have listed: "filter (listed_group match_db 3 (Some ''advanced'')) (groups match_db)
      = [level_group 1 3 ''advanced'', level_group 3 3 ''mixed'']"
    by (simp add: listed_group_def wanted_group_def has_rows_def example_defs)
  have run: "findMatches reverse_order no_faults bob ?q match_db
      = (Response 200 (JGroups (match_groups reverse_order match_db ?q)), match_db)"
    by (simp add: findMatches_def no_faults_def)
  have rows: "map mg_group (match_groups reverse_order match_db ?q)
        = [level_group 3 3 ''mixed'', level_group 1 3 ''advanced'']"
      "map mg_member_count (match_groups reverse_order match_db ?q) = [2, 1]"
    by (simp_all add: match_groups_def group_join_def group_where_def group_columns_def
          reverse_order_def truthy_def text_of_def example_defs query_defs)
  from match_groups_result [OF ro, of bob 3 "Some ''advanced''" match_db] obtain rows L where
    r: "findMatches reverse_order no_faults bob ?q match_db = (Response 200 (JGroups rows), match_db)"
    and t: "map mg_group rows = take 50 L" and n: "newest_first L"
    and m: "distinct (map s_id (subjects match_db)) \<and> distinct (map u_id (users match_db)) \<longrightarrow>
        mset L = mset (filter (listed_group match_db 3 (Some ''advanced'')) (groups match_db))"
    by blast
  from m ks ku listed
  have m': "mset L = mset [level_group 1 3 ''advanced'', level_group 3 3 ''mixed'']"
    by simp
  from r run have same: "rows = match_groups reverse_order match_db ?q" by simp
  from r t n m' rows [folded same]
  have "\<exists>rows L. findMatches reverse_order no_faults bob ?q match_db
       = (Response 200 (JGroups rows), match_db) \<and>
      map mg_group rows = take 50 L \<and> newest_first L \<and>
      mset L = mset [level_group 1 3 ''advanced'', level_group 3 3 ''mixed''] \<and>
      map mg_group rows = [level_group 3 3 ''mixed'', level_group 1 3 ''advanced''] \<and>
      map mg_member_count rows = [2, 1]"
    by (intro exI [of _ rows] exI [of _ L] conjI)
  with ro ks ku show ?thesis by (intro conjI)
qed

text \<open>
  C8 as stated fails: a group is created with a \<^verbatim>\<open>subject_id\<close> that has no subject
  row (the handler stores the field as it comes), and the search for that subject
  answers with no row, although the group is stored with that subject.
\<close>

theorem match_unstored_subject_counterexample:
  "createGroup no_faults ann logic_body 5 campus_db =
     (Response 201 (JOkGroup 1),
      insert_member (owner_row 1 7) (insert_group ann logic_body 5 campus_db)) \<and>
   filter (wanted_group 4 None)
       (groups (insert_member (owner_row 1 7) (insert_group ann logic_body 5 campus_db)))
     = [created_group ann logic_body 5 campus_db] \<and>
   findMatches table_order no_faults ann
       \<lparr> mq_subject_id = Some 4, mq_level = None, mq_type = Some ''group'' \<rparr>
       (insert_member (owner_row 1 7) (insert_group ann logic_body 5 campus_db))
     = (Response 200 (JGroups []),
        insert_member (owner_row 1 7) (insert_group ann logic_body 5 campus_db))"
  by (simp add: createGroup_def findMatches_def match_groups_def group_join_def
        group_where_def wanted_group_def table_order_def or_text_def or_number_def
        truthy_def example_defs)

subsection \<open>Posting a message\<close>

text \<open>
  C9. A message request is answered 400 with \<open>Empty message\<close> exactly when the
  text is absent or empty, and then changes nothing. With a non-empty text, a
  group id that \<^verbatim>\<open>parseInt\<close> reads and no storage failure, the answer is 200 and
  one row is appended to the messages, with that group id, the id of the user of
  the token and that text, in every state and for every user: nothing asks whether
  the group exists or whether the user is a member of it.
\<close>

theorem postMessage_empty_iff:
  "(fst (postMessage F user id_param \<lparr> mb_message = m \<rparr> now s) = Response 400 (JError ''Empty message'')
      \<longleftrightarrow> \<not> truthy m) \<and>
   (\<not> truthy m \<longrightarrow> snd (postMessage F user id_param \<lparr> mb_message = m \<rparr> now s) = s) \<and>
   (text \<noteq> [] \<and> parseInt id_param = Some gid \<and> \<not> F MessageInsert \<longrightarrow>
      postMessage F user id_param \<lparr> mb_message = Some text \<rparr> now s =
        (Response 200 JOk,
         s \<lparr> group_messages := group_messages s @
               [\<lparr> msg_id = next_message_id s, msg_group_id = gid, msg_user_id = c_id user,
                  msg_message = text, msg_sent_at = now \<rparr>],
             next_message_id := next_message_id s + 1 \<rparr>))"
  by (auto simp: postMessage_def posted_row_def truthy_def text_of_def Let_def
        split: option.splits)

theorem postMessage_empty_iff_witness:
  "\<not> truthy (Some []) \<and>
   postMessage no_faults ann ''5'' \<lparr> mb_message = Some [] \<rparr> 0 empty_db
     = (Response 400 (JError ''Empty message''), empty_db) \<and>
   ''hello'' \<noteq> [] \<and> parseInt ''5'' = Some 5 \<and> \<not> no_faults MessageInsert \<and>
   groups empty_db = [] \<and> group_members empty_db = [] \<and>
   postMessage no_faults ann ''5'' \<lparr> mb_message = Some ''hello'' \<rparr> 0 empty_db
     = (Response 200 JOk,
        empty_db \<lparr> group_messages :=
                     [\<lparr> msg_id = 1, msg_group_id = 5, msg_user_id = 7,
                        msg_message = ''hello'', msg_sent_at = 0 \<rparr>],
                   next_message_id := 2 \<rparr>)"
proof -
  have e: "\<not> truthy (Some [])" by (simp add: truthy_def)
  have f: "\<not> no_faults MessageInsert" by (simp add: no_faults_def)
  from postMessage_empty_iff [of no_faults ann "''5''" "Some []" 0 empty_db "''hello''" 5]
    e f parseInt_5
  show ?thesis by (simp add: prod_eq_iff empty_db_def ann_def)
qed

subsection \<open>The guard on the route parameter\<close>

text \<open>
  C10. A join request whose route parameter \<^verbatim>\<open>parseInt\<close> turns into \<^verbatim>\<open>NaN\<close> is
  answered with status 400 and the error \<open>Invalid group ID\<close>, whatever the storage
  client would do (the connection is never asked for), and the stored state is the
  one before the request.
\<close>

theorem join_invalid_id:
  "parseInt id_param = None \<Longrightarrow>
     joinGroup F user id_param s = (Response 400 (JError ''Invalid group ID''), s)"
  by (simp add: joinGroup_def)

theorem join_invalid_id_witness:
  "parseInt ''abc'' = None \<and>
   joinGroup (\<lambda>_. True) ann ''abc'' empty_db
     = (Response 400 (JError ''Invalid group ID''), empty_db)"
proof -
  have h: "parseInt ''abc'' = None"
    by (simp add: parseInt_def is_space_def is_digit_def digit_value_def)
  show ?thesis
    using h join_invalid_id [OF h] by simp
qed

end
